theory Spec2Isabelle
  imports Main "HOL-Library.Sublist"
begin

section \<open>Strings and Python string helpers\<close>

text \<open>
  Python \<open>str\<close> values are modelled as \<open>string\<close>; a \<open>char\<close> stands for one code
  point below 256. The helpers follow the CPython string methods the program calls.
\<close>

definition startswith :: "string \<Rightarrow> string \<Rightarrow> bool" where
  "startswith s p = (take (length p) s = p)"

definition endswith :: "string \<Rightarrow> string \<Rightarrow> bool" where
  "endswith s p = (length p \<le> length s \<and> drop (length s - length p) s = p)"

text \<open>\<open>sub in s\<close> for strings: \<open>sub\<close> occurs in \<open>s\<close> as a contiguous run.\<close>

fun contains :: "string \<Rightarrow> string \<Rightarrow> bool" where
  "contains [] sub = (sub = [])"
| "contains (c # cs) sub = (prefix sub (c # cs) \<or> contains cs sub)"

text \<open>\<open>s.split(c)\<close> for a one-character separator: never empty, \<open>''''.split(c) = ['''']\<close>.\<close>

fun split_on :: "char \<Rightarrow> string \<Rightarrow> string list" where
  "split_on c [] = ['''']"
| "split_on c (x # xs) =
     (if x = c then [] # split_on c xs
      else (case split_on c xs of
              [] \<Rightarrow> [x] # []
            | p # ps \<Rightarrow> (x # p) # ps))"

text \<open>\<open>sep.join(parts)\<close>.\<close>

fun join_with :: "string \<Rightarrow> string list \<Rightarrow> string" where
  "join_with sep [] = []"
| "join_with sep [p] = p"
| "join_with sep (p # q # ps) = p @ sep @ join_with sep (q # ps)"

text \<open>\<open>str.isspace\<close> on the code points below 256, the characters \<open>lstrip()\<close> removes.\<close>

definition isspace :: "char \<Rightarrow> bool" where
  "isspace c =
     (let n = (of_char c :: nat)
      in (9 \<le> n \<and> n \<le> 13) \<or> (28 \<le> n \<and> n \<le> 32) \<or> n = 133 \<or> n = 160)"

definition lstrip :: "string \<Rightarrow> string" where
  "lstrip s = dropWhile isspace s"

text \<open>\<open>s.strip()\<close>: leading and trailing whitespace removed.\<close>

definition strip :: "string \<Rightarrow> string" where
  "strip s = rev (dropWhile isspace (rev (dropWhile isspace s)))"

text \<open>
  \<open>s.expandtabs()\<close> with the default tab size 8: the column restarts after a line feed
  or a carriage return.
\<close>

fun expandtabs_from :: "nat \<Rightarrow> string \<Rightarrow> string" where
  "expandtabs_from col [] = []"
| "expandtabs_from col (ch # rest) =
     (if ch = CHR 0x09
      then replicate (8 - col mod 8) CHR '' '' @ expandtabs_from (col + (8 - col mod 8)) rest
      else ch # expandtabs_from (if ch = CHR 0x0A \<or> ch = CHR 0x0D then 0 else col + 1) rest)"

definition expandtabs :: "string \<Rightarrow> string" where
  "expandtabs s = expandtabs_from 0 s"

text \<open>\<open>str(n)\<close> for an integer: decimal digits, a minus sign for negatives.\<close>

function str_nat :: "nat \<Rightarrow> string" where
  "str_nat n =
     (if n < 10 then [char_of (48 + n)]
      else str_nat (n div 10) @ [char_of (48 + n mod 10)])"
  by pat_completeness auto
termination
  by (relation "measure id") auto

definition str_int :: "int \<Rightarrow> string" where
  "str_int i = (if i < 0 then ''-'' @ str_nat (nat (- i)) else str_nat (nat i))"

section \<open>The syntax tree and the library functions on it\<close>

text \<open>
  The nodes of a parsed module, as far as \<open>analyze_file\<close> looks at them. \<open>Expr\<close> is an
  expression statement and carries its value; \<open>Other cs\<close> is any other node (\<open>Pass\<close>,
  \<open>If\<close>, \<open>For\<close>, \<open>Try\<close>, \<open>ExceptHandler\<close>, ...) with the child nodes \<open>cs\<close> that are
  statements or hold statements, in the order \<open>ast.iter_child_nodes\<close> gives them.
  Expression subtrees hold no statements; they match none of the \<open>isinstance\<close> tests
  and leaving them out does not change the relative order in which \<open>ast.walk\<close> yields
  the remaining nodes.
\<close>

datatype const_value = Str string | NonStr

datatype expr = Constant const_value | OtherExpr

datatype node =
    Module "node list"
  | FunctionDef string int "node list"
  | AsyncFunctionDef string int "node list"
  | ClassDef string int "node list"
  | Expr expr
  | Other "node list"

text \<open>The child nodes of a node: for the four kinds with a \<open>body\<close>, that body.\<close>

fun children :: "node \<Rightarrow> node list" where
  "children (Module body) = body"
| "children (FunctionDef name lineno body) = body"
| "children (AsyncFunctionDef name lineno body) = body"
| "children (ClassDef name lineno body) = body"
| "children (Expr v) = []"
| "children (Other cs) = cs"

text \<open>
  \<open>ast.walk\<close>: a queue that starts with the root; each step pops the first node, appends
  its children at the end and yields the node.
\<close>

function walk_queue :: "node list \<Rightarrow> node list" where
  "walk_queue [] = []"
| "walk_queue (n # todo) = n # walk_queue (todo @ children n)"
  by pat_completeness auto
termination
proof (relation "measure (\<lambda>q. sum_list (map (\<lambda>n. Suc (size n)) q))")
  show "wf (measure (\<lambda>q. sum_list (map (\<lambda>n. Suc (size n)) q)))" by simp
next
  fix n :: node and todo :: "node list"
  have "sum_list (map (\<lambda>n. Suc (size n)) cs) = size_list size cs" for cs :: "node list"
    by (induction cs) simp_all
  then have "sum_list (map (\<lambda>n. Suc (size n)) (children n)) < Suc (size n)"
    by (cases n) simp_all
  then show "(todo @ children n, n # todo) \<in> measure (\<lambda>q. sum_list (map (\<lambda>n. Suc (size n)) q))"
    by simp
qed

definition walk :: "node \<Rightarrow> node list" where
  "walk tree = walk_queue [tree]"


text \<open>
  \<open>inspect.cleandoc\<close>. The margin starts at \<open>sys.maxsize\<close>, here \<open>None\<close>: no line after
  the first has content yet.
\<close>

fun margin_of :: "string list \<Rightarrow> nat option \<Rightarrow> nat option" where
  "margin_of [] margin = margin"
| "margin_of (line # rest) margin =
     (let content = length (lstrip line)
      in if content \<noteq> 0
         then (let indent = length line - content
               in margin_of rest (Some (case margin of None \<Rightarrow> indent | Some m \<Rightarrow> min m indent)))
         else margin_of rest margin)"

definition cleandoc :: "string \<Rightarrow> string" where
  "cleandoc doc =
     (case split_on CHR 0x0A (expandtabs doc) of
        [] \<Rightarrow> []
      | line0 # others \<Rightarrow>
          (let margin = margin_of others None;
               stripped =
                 lstrip line0 # (case margin of None \<Rightarrow> others | Some m \<Rightarrow> map (drop m) others);
               no_trailing = rev (dropWhile (\<lambda>l. l = []) (rev stripped));
               no_leading = dropWhile (\<lambda>l. l = []) no_trailing
           in join_with [CHR 0x0A] no_leading))"

text \<open>
  \<open>ast.get_docstring(node)\<close> with \<open>clean=True\<close>; \<open>None\<close> is Python's \<open>None\<close>. On a node
  that is neither a function, a class nor a module Python raises \<open>TypeError\<close>;
  \<open>analyze_file\<close> calls it behind an \<open>isinstance\<close> test only, so that branch is never
  taken and is \<open>None\<close> here.
\<close>

fun docstring_of_body :: "node list \<Rightarrow> string option" where
  "docstring_of_body (Expr (Constant (Str text)) # rest) = Some (cleandoc text)"
| "docstring_of_body body = None"

fun get_docstring :: "node \<Rightarrow> string option" where
  "get_docstring (Module body) = docstring_of_body body"
| "get_docstring (FunctionDef name lineno body) = docstring_of_body body"
| "get_docstring (AsyncFunctionDef name lineno body) = docstring_of_body body"
| "get_docstring (ClassDef name lineno body) = docstring_of_body body"
| "get_docstring (Expr v) = None"
| "get_docstring (Other cs) = None"

text \<open>\<open>not ast.get_docstring(node)\<close>: true for \<open>None\<close> and for the empty string.\<close>

definition not_docstring :: "node \<Rightarrow> bool" where
  "not_docstring n = (case get_docstring n of None \<Rightarrow> True | Some text \<Rightarrow> text = [])"

text \<open>
  The rule of the specification, in its words: a declaration is documented when the first
  statement of its body is a standalone string literal expression that is non-empty after
  trimming.
\<close>

definition documented_spec :: "node list \<Rightarrow> bool" where
  "documented_spec body =
     (case body of
        Expr (Constant (Str text)) # rest \<Rightarrow> strip text \<noteq> []
      | _ \<Rightarrow> False)"

text \<open>
  The rule the program follows, spelled out on the literal itself: a string literal is
  blank when its first line holds nothing but whitespace and every later line is empty;
  a declaration is documented when its body starts with a string literal expression that
  is not blank.
\<close>

definition blank_docstring :: "string \<Rightarrow> bool" where
  "blank_docstring text =
     (case split_on CHR 0x0A text of
        [] \<Rightarrow> True
      | line0 # others \<Rightarrow> list_all isspace line0 \<and> list_all (\<lambda>line. line = []) others)"

definition documented :: "node list \<Rightarrow> bool" where
  "documented body =
     (case body of
        Expr (Constant (Str text)) # rest \<Rightarrow> \<not> blank_docstring text
      | _ \<Rightarrow> False)"

section \<open>analyze_file\<close>

text \<open>An entry of \<open>missing_items\<close>: \<open>(type_name, line_number, name)\<close>.\<close>

type_synonym item = "string \<times> int \<times> string"

text \<open>The loop over \<open>node.body\<close> of a class (lines 46 to 51).\<close>

fun check_methods :: "string \<Rightarrow> node list \<Rightarrow> item list \<Rightarrow> item list" where
  "check_methods cname [] missing_items = missing_items"
| "check_methods cname (FunctionDef name lineno body # rest) missing_items =
     check_methods cname rest
       (if not_docstring (FunctionDef name lineno body)
        then missing_items @ [(''Method'', lineno, cname @ ''.'' @ name)]
        else missing_items)"
| "check_methods cname (AsyncFunctionDef name lineno body # rest) missing_items =
     check_methods cname rest
       (if not_docstring (AsyncFunctionDef name lineno body)
        then missing_items @ [(''Method'', lineno, cname @ ''.'' @ name)]
        else missing_items)"
| "check_methods cname (item # rest) missing_items = check_methods cname rest missing_items"

text \<open>The body of the loop over \<open>ast.walk(tree)\<close> (lines 34 to 51) for one node.\<close>

fun check_node :: "node \<Rightarrow> item list \<Rightarrow> item list" where
  "check_node (FunctionDef name lineno body) missing_items =
     (if not_docstring (FunctionDef name lineno body)
      then missing_items @ [(''Function'', lineno, name)]
      else missing_items)"
| "check_node (AsyncFunctionDef name lineno body) missing_items =
     (if not_docstring (AsyncFunctionDef name lineno body)
      then missing_items @ [(''Function'', lineno, name)]
      else missing_items)"
| "check_node (ClassDef name lineno body) missing_items =
     check_methods name body
       (if not_docstring (ClassDef name lineno body)
        then missing_items @ [(''Class'', lineno, name)]
        else missing_items)"
| "check_node node missing_items = missing_items"

fun analyze_nodes :: "node list \<Rightarrow> item list \<Rightarrow> item list" where
  "analyze_nodes [] missing_items = missing_items"
| "analyze_nodes (node # rest) missing_items = analyze_nodes rest (check_node node missing_items)"

text \<open>Lines 33 to 53: what \<open>analyze_file\<close> returns once the file is parsed.\<close>

definition analyze_tree :: "node \<Rightarrow> item list" where
  "analyze_tree tree = analyze_nodes (walk tree) []"

section \<open>Files, directories and exceptions\<close>

text \<open>
  The exceptions that reading and parsing a file can raise. \<open>IOError\<close> is Python 3's
  \<open>OSError\<close> with its subclasses; the last three are raised by \<open>ast.parse\<close> on some
  inputs (a null byte before Python 3.12, very deep nesting, exhausted memory) and no
  \<open>except\<close> clause of the program names them.
\<close>

datatype exn = IOError | UnicodeDecodeError | SyntaxError | ValueError | RecursionError | MemoryError

text \<open>
  A directory as \<open>os.walk\<close> lists it: the subdirectories it descends into, by name, and
  the names of the entries that are not directories.
\<close>

datatype dirtree = Dir "(string \<times> dirtree) list" "string list"

text \<open>
  What the program asks of its environment: \<open>dir_of path\<close> is the directory at \<open>path\<close>
  when \<open>os.path.isdir(path)\<close> holds; \<open>read_text\<close> is \<open>open(path, "r",
  encoding="utf-8").read()\<close>; \<open>ast_parse\<close> is \<open>ast.parse\<close>.
\<close>

record world =
  dir_of :: "string \<Rightarrow> dirtree option"
  abspath :: "string \<Rightarrow> string"
  read_text :: "string \<Rightarrow> exn + string"
  ast_parse :: "string \<Rightarrow> exn + node"

text \<open>\<open>os.path.join(a, b)\<close> of \<open>posixpath\<close>; \<open>os.sep\<close> is \<open>/\<close>.\<close>

definition path_join :: "string \<Rightarrow> string \<Rightarrow> string" where
  "path_join a b =
     (if startswith b ''/'' then b
      else if a = [] \<or> endswith a ''/'' then a @ b
      else a @ ''/'' @ b)"

text \<open>\<open>os.walk(dirpath)\<close>, top down: the directory itself, then each subdirectory in turn.\<close>

fun os_walk :: "string \<Rightarrow> dirtree \<Rightarrow> (string \<times> string list \<times> string list) list" where
  "os_walk dirpath (Dir subdirs files) =
     (dirpath, map fst subdirs, files) #
     concat (map (\<lambda>(name, sub). os_walk (path_join dirpath name) sub) subdirs)"

text \<open>\<open>os.walk\<close> of a path that is no directory yields nothing.\<close>

definition walk_dir :: "world \<Rightarrow> string \<Rightarrow> (string \<times> string list \<times> string list) list" where
  "walk_dir w directory =
     (case dir_of w directory of None \<Rightarrow> [] | Some t \<Rightarrow> os_walk directory t)"

text \<open>
  \<open>analyze_file\<close>: \<open>Inr\<close> is the returned list, \<open>Inl\<close> an exception that no \<open>except\<close>
  clause catches. Such an exception ends the whole run; the functions below pass it on
  and keep nothing of what was printed before it.
\<close>

definition analyze_file :: "world \<Rightarrow> string \<Rightarrow> exn + item list" where
  "analyze_file w filepath =
     (case read_text w filepath of
        Inl e \<Rightarrow> if e = IOError \<or> e = UnicodeDecodeError then Inr [] else Inl e
      | Inr source \<Rightarrow>
          (case ast_parse w source of
             Inl e \<Rightarrow> if e = SyntaxError then Inr [] else Inl e
           | Inr tree \<Rightarrow> Inr (analyze_tree tree)))"

section \<open>scan_directory and the entry point\<close>

text \<open>The local counters of \<open>scan_directory\<close> and what has been printed, one entry per \<open>print\<close>.\<close>

record scan_state =
  total_missing :: int
  files_scanned :: int
  stdout :: "string list"

definition print :: "string \<Rightarrow> scan_state \<Rightarrow> scan_state" where
  "print text s = s\<lparr>stdout := stdout s @ [text]\<rparr>"

text \<open>Lines 79 to 81: one line and one count per missing item.\<close>

fun report_items :: "item list \<Rightarrow> scan_state \<Rightarrow> scan_state" where
  "report_items [] s = s"
| "report_items ((item_type, line, name) # rest) s =
     report_items rest
       ((print (''  - Line '' @ str_int line @ '': '' @ item_type @ '' '' @ [CHR 0x27] @ name @
                [CHR 0x27] @ '' is missing a docstring.'') s)
        \<lparr>total_missing := total_missing s + 1\<rparr>)"

text \<open>Lines 76 to 82: the block printed for one analysed file.\<close>

definition report_file :: "string \<Rightarrow> item list \<Rightarrow> scan_state \<Rightarrow> scan_state" where
  "report_file filepath missing s =
     (if missing \<noteq> []
      then print '''' (report_items missing
             (print (filepath @ '':'') (s\<lparr>files_scanned := files_scanned s + 1\<rparr>)))
      else s)"

text \<open>Lines 71 to 82: the loop over the files of one directory.\<close>

fun scan_files :: "world \<Rightarrow> string \<Rightarrow> string list \<Rightarrow> scan_state \<Rightarrow> exn + scan_state" where
  "scan_files w root [] s = Inr s"
| "scan_files w root (file # files) s =
     (if endswith file ''.py''
      then (case analyze_file w (path_join root file) of
              Inl e \<Rightarrow> Inl e
            | Inr missing \<Rightarrow> scan_files w root files (report_file (path_join root file) missing s))
      else scan_files w root files s)"

text \<open>\<open>any(part.startswith('.') for part in root.split(os.sep))\<close>.\<close>

definition hidden_root :: "string \<Rightarrow> bool" where
  "hidden_root root = list_ex (\<lambda>part. startswith part ''.'') (split_on CHR ''/'' root)"

text \<open>Lines 64 to 82: the loop over what \<open>os.walk\<close> yields.\<close>

fun scan_dirs :: "world \<Rightarrow> (string \<times> string list \<times> string list) list \<Rightarrow> scan_state \<Rightarrow> exn + scan_state" where
  "scan_dirs w [] s = Inr s"
| "scan_dirs w ((root, dirs, files) # rest) s =
     (if hidden_root root then scan_dirs w rest s
      else if contains root ''__pycache__'' then scan_dirs w rest s
      else (case scan_files w root files s of
              Inl e \<Rightarrow> Inl e
            | Inr s' \<Rightarrow> scan_dirs w rest s'))"

text \<open>Lines 59 to 82: the state when the loops are done.\<close>

definition scan_loop :: "world \<Rightarrow> string \<Rightarrow> exn + scan_state" where
  "scan_loop w directory =
     scan_dirs w (walk_dir w directory)
       \<lparr>total_missing = 0, files_scanned = 0,
        stdout = [''Scanning directory: '' @ abspath w directory @ [CHR 0x0A]]\<rparr>"

text \<open>\<open>scan_directory\<close>: the final state and the code given to \<open>sys.exit\<close>.\<close>

definition scan_directory :: "world \<Rightarrow> string \<Rightarrow> exn + (scan_state \<times> int)" where
  "scan_directory w directory =
     (case scan_loop w directory of
        Inl e \<Rightarrow> Inl e
      | Inr s \<Rightarrow>
          (let s1 = print ''--- Summary ---'' s;
               s2 = print (''Total missing docstrings found: '' @ str_int (total_missing s1)) s1
           in if total_missing s2 > 0 then Inr (s2, 1)
              else Inr (print ''No missing docstrings found!'' s2, 0)))"

text \<open>Lines 93 to 99; \<open>argv\<close> is \<open>sys.argv\<close>. The result is what was printed and the exit code.\<close>

definition target_dir :: "string list \<Rightarrow> string" where
  "target_dir argv = (if length argv > 1 then argv ! 1 else ''.'')"

definition main :: "world \<Rightarrow> string list \<Rightarrow> exn + (string list \<times> int)" where
  "main w argv =
     (if dir_of w (target_dir argv) = None
      then Inr ([''Error: Directory '' @ [CHR 0x27] @ target_dir argv @ [CHR 0x27] @
                 '' does not exist.''], 1)
      else (case scan_directory w (target_dir argv) of
              Inl e \<Rightarrow> Inl e
            | Inr (s, code) \<Rightarrow> Inr (stdout s, code)))"

section \<open>Notions used to state the properties of a scan\<close>

text \<open>
  The paths that \<open>scan_directory\<close> hands to \<open>analyze_file\<close>, in that order: for each
  directory the walk yields and the two tests do not skip, the names ending in \<open>.py\<close>,
  joined to the directory.
\<close>

definition py_paths :: "(string \<times> string list \<times> string list) list \<Rightarrow> string list" where
  "py_paths walked =
     concat (map (\<lambda>(root, dirs, files).
                    if hidden_root root \<or> contains root ''__pycache__'' then []
                    else map (path_join root) (filter (\<lambda>file. endswith file ''.py'') files))
                 walked)"

text \<open>
  \<open>analyze_file\<close> on each path in turn: the results by path, or the first exception
  that escapes.
\<close>

fun analyze_all :: "world \<Rightarrow> string list \<Rightarrow> exn + (string \<times> item list) list" where
  "analyze_all w [] = Inr []"
| "analyze_all w (filepath # rest) =
     (case analyze_file w filepath of
        Inl e \<Rightarrow> Inl e
      | Inr missing \<Rightarrow>
          (case analyze_all w rest of
             Inl e \<Rightarrow> Inl e
           | Inr results \<Rightarrow> Inr ((filepath, missing) # results)))"

text \<open>The report steps for a list of analysed files.\<close>

fun report_all :: "(string \<times> item list) list \<Rightarrow> scan_state \<Rightarrow> scan_state" where
  "report_all [] s = s"
| "report_all ((filepath, missing) # rest) s = report_all rest (report_file filepath missing s)"

text \<open>
  Directory entries as a file system has them: no name of a subdirectory contains the
  separator.
\<close>

fun valid_tree :: "dirtree \<Rightarrow> bool" where
  "valid_tree (Dir subdirs files) =
     list_all (\<lambda>(name, sub). CHR ''/'' \<notin> set name \<and> valid_tree sub) subdirs"

section \<open>An example environment\<close>

text \<open>
  A small project to run the program on. The directory \<open>proj\<close> holds \<open>bad.py\<close> (one
  function without a docstring), \<open>broken.py\<close> (a syntax error), \<open>notes.txt\<close> and the
  subdirectory \<open>pkg\<close> with \<open>ok.py\<close> (one documented function); the current directory
  holds \<open>proj\<close> and \<open>top.py\<close>. Every path not listed reads as the undocumented function.
\<close>

definition example_world :: world where
  "example_world =
     \<lparr>dir_of = (\<lambda>path.
        if path = ''proj''
        then Some (Dir [(''pkg'', Dir [] [''ok.py''])] [''bad.py'', ''broken.py'', ''notes.txt''])
        else if path = ''proj/pkg'' then Some (Dir [] [''ok.py''])
        else if path = ''.''
        then Some (Dir [(''proj'',
               Dir [(''pkg'', Dir [] [''ok.py''])] [''bad.py'', ''broken.py'', ''notes.txt''])]
               [''top.py''])
        else None),
      abspath = (\<lambda>path. if path = ''.'' then ''/home/u'' else ''/home/u/'' @ path),
      read_text = (\<lambda>path.
        if path = ''proj/broken.py'' then Inr ''def f(:''
        else if path = ''proj/pkg/ok.py'' then Inr ''def f(): 'doc'; pass''
        else if path = ''proj/missing.py'' then Inl IOError
        else Inr ''def f(): pass''),
      ast_parse = (\<lambda>source.
        if source = ''def f(): pass'' then Inr (Module [FunctionDef ''f'' 1 [Other []]])
        else if source = ''def f(): 'doc'; pass''
        then Inr (Module [FunctionDef ''f'' 1 [Expr (Constant (Str ''doc'')), Other []]])
        else Inl SyntaxError)\<rparr>"

section \<open>The walk and the loop over it\<close>

lemma check_methods_append:
  "check_methods cname body (a @ b) = a @ check_methods cname body b"
proof (induction body arbitrary: b)
  case Nil
  show ?case by simp
next
  case (Cons item rest)
  show ?case
    by (cases item) (simp_all add: Cons.IH [symmetric])
qed

lemma check_node_append: "check_node n (a @ b) = a @ check_node n b"
  by (cases n) (simp_all add: check_methods_append [symmetric])

lemma analyze_nodes_append: "analyze_nodes ns (a @ b) = a @ analyze_nodes ns b"
  by (induction ns arbitrary: b) (simp_all add: check_node_append)

lemma analyze_nodes_concat:
  "analyze_nodes ns [] = concat (map (\<lambda>n. check_node n []) ns)"
proof (induction ns)
  case Nil
  show ?case by simp
next
  case (Cons n ns)
  have "analyze_nodes (n # ns) [] = analyze_nodes ns (check_node n [] @ [])" by simp
  also have "\<dots> = check_node n [] @ analyze_nodes ns []" by (rule analyze_nodes_append)
  finally show ?case by (simp add: Cons.IH)
qed









lemma analyze_tree_concat: "analyze_tree tree = concat (map (\<lambda>n. check_node n []) (walk tree))"
  by (simp add: analyze_tree_def analyze_nodes_concat)

section \<open>When cleandoc leaves nothing\<close>

lemma lstrip_empty_iff: "lstrip s = [] \<longleftrightarrow> list_all isspace s"
  by (simp add: lstrip_def dropWhile_eq_Nil_conv list_all_iff)

lemma length_lstrip_le: "length (lstrip s) \<le> length s"
  by (simp add: lstrip_def length_dropWhile_le)

lemma margin_of_Some_le: "margin_of ls (Some a) = Some m \<Longrightarrow> m \<le> a"
proof (induction ls arbitrary: a)
  case Nil
  then show ?case by simp
next
  case (Cons l ls)
  show ?case
  proof (cases "lstrip l = []")
    case True
    with Cons.prems have "margin_of ls (Some a) = Some m" by simp
    then show ?thesis by (rule Cons.IH)
  next
    case False
    with Cons.prems
    have "margin_of ls (Some (min a (length l - length (lstrip l)))) = Some m"
      by (simp add: Let_def)
    then have "m \<le> min a (length l - length (lstrip l))" by (rule Cons.IH)
    then show ?thesis by simp
  qed
qed

lemma margin_of_Some_is_Some: "\<exists>m. margin_of ls (Some a) = Some m"
  by (induction ls arbitrary: a) (auto simp: Let_def)

lemma margin_of_None_iff:
  "margin_of ls None = None \<longleftrightarrow> (\<forall>l \<in> set ls. lstrip l = [])"
proof (induction ls)
  case Nil
  show ?case by simp
next
  case (Cons l ls)
  show ?case
  proof (cases "lstrip l = []")
    case True
    then show ?thesis using Cons.IH by simp
  next
    case False
    then show ?thesis
      using margin_of_Some_is_Some [of ls "length l - length (lstrip l)"]
      by (auto simp: Let_def)
  qed
qed

lemma margin_of_lower_bound:
  "margin_of ls acc = Some m \<Longrightarrow> l \<in> set ls \<Longrightarrow> lstrip l \<noteq> [] \<Longrightarrow>
   m \<le> length l - length (lstrip l)"
proof (induction ls arbitrary: acc)
  case Nil
  then show ?case by simp
next
  case (Cons x xs)
  show ?case
  proof (cases "lstrip x = []")
    case True
    with Cons.prems have "margin_of xs acc = Some m" "l \<in> set xs" by auto
    then show ?thesis using Cons.prems(3) by (rule Cons.IH)
  next
    case False
    let ?acc = "Some (case acc of None \<Rightarrow> length x - length (lstrip x)
                 | Some k \<Rightarrow> min k (length x - length (lstrip x)))"
    from False Cons.prems(1) have m: "margin_of xs ?acc = Some m" by (simp add: Let_def)
    show ?thesis
    proof (cases "l = x")
      case True
      from margin_of_Some_le [OF m] show ?thesis
        by (auto simp: True split: option.splits)
    next
      case False
      with Cons.prems(2) have "l \<in> set xs" by simp
      with m show ?thesis using Cons.prems(3) by (rule Cons.IH)
    qed
  qed
qed

lemma dropped_margin_all_empty:
  "list_all (\<lambda>l. l = [])
     (case margin_of ls None of None \<Rightarrow> ls | Some m \<Rightarrow> map (drop m) ls)
   \<longleftrightarrow> list_all (\<lambda>l. l = []) ls"
proof (cases "margin_of ls None")
  case None
  then show ?thesis by simp
next
  case (Some m)
  then have "\<not> (\<forall>l \<in> set ls. lstrip l = [])"
    using margin_of_None_iff [of ls] by simp
  then obtain l where l: "l \<in> set ls" "lstrip l \<noteq> []" by blast
  from margin_of_lower_bound [OF Some l] have "m \<le> length l - length (lstrip l)" .
  moreover from l(2) have "0 < length (lstrip l)" by simp
  moreover have "length (lstrip l) \<le> length l" by (rule length_lstrip_le)
  ultimately have "m < length l" by linarith
  then have "drop m l \<noteq> []" by simp
  with l(1) have "\<not> list_all (\<lambda>l. l = []) (map (drop m) ls)"
    by (auto simp: list_all_iff)
  moreover from l(2) have "l \<noteq> []" by (auto simp: lstrip_def)
  with l(1) have "\<not> list_all (\<lambda>l. l = []) ls"
    by (auto simp: list_all_iff)
  ultimately show ?thesis by (simp add: Some)
qed

lemma dropWhile_both_ends_empty_iff:
  "dropWhile P (rev (dropWhile P (rev ys))) = [] \<longleftrightarrow> (\<forall>y \<in> set ys. P y)"
proof
  assume "dropWhile P (rev (dropWhile P (rev ys))) = []"
  then have "\<forall>z \<in> set (rev (dropWhile P (rev ys))). P z"
    by (simp only: dropWhile_eq_Nil_conv)
  then have all: "\<forall>z \<in> set (dropWhile P (rev ys)). P z"
    by (simp only: set_rev)
  have "dropWhile P (rev ys) = []"
  proof (rule ccontr)
    assume ne: "dropWhile P (rev ys) \<noteq> []"
    then have "\<not> P (hd (dropWhile P (rev ys)))" by (rule hd_dropWhile)
    moreover from ne have "hd (dropWhile P (rev ys)) \<in> set (dropWhile P (rev ys))"
      by (rule hd_in_set)
    ultimately show False using all by blast
  qed
  then have "\<forall>y \<in> set (rev ys). P y" by (simp only: dropWhile_eq_Nil_conv)
  then show "\<forall>y \<in> set ys. P y" by (simp only: set_rev)
next
  assume "\<forall>y \<in> set ys. P y"
  then have "\<forall>y \<in> set (rev ys). P y" by (simp only: set_rev)
  then have "dropWhile P (rev ys) = []" by (simp only: dropWhile_eq_Nil_conv)
  then show "dropWhile P (rev (dropWhile P (rev ys))) = []"
    by (simp only: rev.simps dropWhile.simps)
qed

lemma strip_blank_lines_empty_iff:
  "dropWhile (\<lambda>l. l = []) (rev (dropWhile (\<lambda>l. l = []) (rev ys))) = []
   \<longleftrightarrow> list_all (\<lambda>l. l = []) ys"
  by (simp only: dropWhile_both_ends_empty_iff list_all_iff)

lemma join_with_nonempty: "p \<noteq> [] \<Longrightarrow> join_with sep (p # ps) \<noteq> []"
  by (cases ps) simp_all

lemma join_with_empty_iff:
  "join_with [CHR 0x0A] (dropWhile (\<lambda>l. l = []) ys) = [] \<longleftrightarrow> dropWhile (\<lambda>l. l = []) ys = []"
proof (cases "dropWhile (\<lambda>l. l = []) ys")
  case Nil
  show ?thesis unfolding Nil by simp
next
  case (Cons p ps)
  have "hd (dropWhile (\<lambda>l. l = []) ys) \<noteq> []"
    using hd_dropWhile [of "\<lambda>l. l = []" ys] Cons by fastforce
  then have "p \<noteq> []" unfolding Cons by simp
  then have "join_with [CHR 0x0A] (p # ps) \<noteq> []" by (rule join_with_nonempty)
  then show ?thesis unfolding Cons by simp
qed

lemma cleandoc_empty_lines:
  assumes "split_on CHR 0x0A (expandtabs text) = line0 # others"
  shows "cleandoc text = [] \<longleftrightarrow> list_all isspace line0 \<and> list_all (\<lambda>l. l = []) others"
proof -
  let ?stripped = "lstrip line0 #
      (case margin_of others None of None \<Rightarrow> others | Some m \<Rightarrow> map (drop m) others)"
  have "cleandoc text = [] \<longleftrightarrow> list_all (\<lambda>l. l = []) ?stripped"
    unfolding cleandoc_def assms list.case Let_def
    by (simp only: join_with_empty_iff strip_blank_lines_empty_iff)
  also have "\<dots> \<longleftrightarrow> lstrip line0 = [] \<and> list_all (\<lambda>l. l = []) others"
    by (simp add: dropped_margin_all_empty)
  finally show ?thesis by (simp only: lstrip_empty_iff)
qed

lemma split_on_nonempty: "split_on c s \<noteq> []"
  by (induction s) (simp_all split: list.splits)

lemma split_on_Cons_other:
  "x \<noteq> c \<Longrightarrow> split_on c (x # xs) = (x # hd (split_on c xs)) # tl (split_on c xs)"
  using split_on_nonempty [of c xs] by (cases "split_on c xs") simp_all

lemma split_on_replicate_prefix:
  "x \<noteq> c \<Longrightarrow>
   split_on c (replicate k x @ xs) = (replicate k x @ hd (split_on c xs)) # tl (split_on c xs)"
proof (induction k)
  case 0
  show ?case using split_on_nonempty [of c xs] by simp
next
  case (Suc k)
  then show ?case by (simp add: split_on_Cons_other)
qed

lemma isspace_chars: "isspace CHR 0x09" "isspace CHR '' ''"
  by (simp_all add: isspace_def)

lemma expandtabs_lines:
  "list_all2 (\<lambda>l m. (l = [] \<longleftrightarrow> m = []) \<and> (list_all isspace l \<longleftrightarrow> list_all isspace m))
     (split_on CHR 0x0A s) (split_on CHR 0x0A (expandtabs_from col s))"
proof (induction s arbitrary: col)
  case Nil
  show ?case by simp
next
  case (Cons ch rest)
  let ?R = "\<lambda>l m. (l = [] \<longleftrightarrow> m = []) \<and> (list_all isspace l \<longleftrightarrow> list_all isspace m)"
  show ?case
  proof (cases "ch = CHR 0x09")
    case True
    let ?k = "8 - col mod 8"
    let ?ms = "split_on CHR 0x0A (expandtabs_from (col + ?k) rest)"
    let ?ls = "split_on CHR 0x0A rest"
    have k: "?k \<noteq> 0" by simp
    have ih: "list_all2 ?R ?ls ?ms" by (rule Cons.IH)
    have ls: "?ls = hd ?ls # tl ?ls" using split_on_nonempty [of "CHR 0x0A" rest] by simp
    have ms: "?ms = hd ?ms # tl ?ms"
      using split_on_nonempty [of "CHR 0x0A" "expandtabs_from (col + ?k) rest"] by simp
    from ih have hd_rel: "?R (hd ?ls) (hd ?ms)" and tl_rel: "list_all2 ?R (tl ?ls) (tl ?ms)"
      by (subst (asm) ls, subst (asm) ms, simp)+
    have left: "split_on CHR 0x0A (ch # rest) = (CHR 0x09 # hd ?ls) # tl ?ls"
      unfolding True by (rule split_on_Cons_other) simp
    have right: "split_on CHR 0x0A (expandtabs_from col (ch # rest)) =
        (replicate ?k CHR '' '' @ hd ?ms) # tl ?ms"
      unfolding True by (simp add: split_on_replicate_prefix)
    from k have "replicate ?k CHR '' '' \<noteq> []" by simp
    with hd_rel have "?R (CHR 0x09 # hd ?ls) (replicate ?k CHR '' '' @ hd ?ms)"
      by (simp add: isspace_chars list_all_iff)
    with tl_rel show ?thesis unfolding left right by simp
  next
    case False
    note not_tab = False
    show ?thesis
    proof (cases "ch = CHR 0x0A")
      case True
      then show ?thesis using Cons.IH [of 0] by simp
    next
      case False
      let ?c = "if ch = CHR 0x0A \<or> ch = CHR 0x0D then 0 else col + 1"
      let ?ms = "split_on CHR 0x0A (expandtabs_from ?c rest)"
      let ?ls = "split_on CHR 0x0A rest"
      have ih: "list_all2 ?R ?ls ?ms" by (rule Cons.IH)
      have ls: "?ls = hd ?ls # tl ?ls" using split_on_nonempty [of "CHR 0x0A" rest] by simp
      have ms: "?ms = hd ?ms # tl ?ms"
        using split_on_nonempty [of "CHR 0x0A" "expandtabs_from ?c rest"] by simp
      from ih have hd_rel: "?R (hd ?ls) (hd ?ms)" and tl_rel: "list_all2 ?R (tl ?ls) (tl ?ms)"
        by (subst (asm) ls, subst (asm) ms, simp)+
      have left: "split_on CHR 0x0A (ch # rest) = (ch # hd ?ls) # tl ?ls"
        using False by (rule split_on_Cons_other)
      have e: "expandtabs_from col (ch # rest) = ch # expandtabs_from ?c rest"
        using not_tab by simp
      have right:
        "split_on CHR 0x0A (expandtabs_from col (ch # rest)) = (ch # hd ?ms) # tl ?ms"
        unfolding e using False by (rule split_on_Cons_other)
      from hd_rel have "?R (ch # hd ?ls) (ch # hd ?ms)" by simp
      with tl_rel show ?thesis unfolding left right by simp
    qed
  qed
qed

lemma blank_lines_related:
  assumes "list_all2 (\<lambda>l m. (l = [] \<longleftrightarrow> m = []) \<and> (list_all isspace l \<longleftrightarrow> list_all isspace m))
     (l0 # ls) (m0 # ms)"
  shows "list_all isspace l0 \<and> list_all (\<lambda>l. l = []) ls \<longleftrightarrow>
         list_all isspace m0 \<and> list_all (\<lambda>l. l = []) ms"
proof -
  from assms have hd: "list_all isspace l0 \<longleftrightarrow> list_all isspace m0"
    and tl: "list_all2 (\<lambda>l m. l = [] \<longleftrightarrow> m = []) ls ms"
    by (auto elim: list_all2_mono)
  from tl have "list_all (\<lambda>l. l = []) ls \<longleftrightarrow> list_all (\<lambda>l. l = []) ms"
    by (induction ls ms rule: list_all2_induct) auto
  with hd show ?thesis by simp
qed

lemma cleandoc_empty_iff: "cleandoc text = [] \<longleftrightarrow> blank_docstring text"
proof -
  obtain l0 ls where ls: "split_on CHR 0x0A text = l0 # ls"
    using split_on_nonempty [of "CHR 0x0A" "text"] by (cases "split_on CHR 0x0A text") simp_all
  obtain m0 ms where ms: "split_on CHR 0x0A (expandtabs text) = m0 # ms"
    using split_on_nonempty [of "CHR 0x0A" "expandtabs text"]
    by (cases "split_on CHR 0x0A (expandtabs text)") simp_all
  have "list_all2 (\<lambda>l m. (l = [] \<longleftrightarrow> m = []) \<and> (list_all isspace l \<longleftrightarrow> list_all isspace m))
     (split_on CHR 0x0A text) (split_on CHR 0x0A (expandtabs text))"
    unfolding expandtabs_def by (rule expandtabs_lines)
  then have "list_all2 (\<lambda>l m. (l = [] \<longleftrightarrow> m = []) \<and> (list_all isspace l \<longleftrightarrow> list_all isspace m))
     (l0 # ls) (m0 # ms)"
    by (simp only: ls ms)
  then have "list_all isspace l0 \<and> list_all (\<lambda>l. l = []) ls \<longleftrightarrow>
         list_all isspace m0 \<and> list_all (\<lambda>l. l = []) ms"
    by (rule blank_lines_related)
  then show ?thesis
    by (simp only: cleandoc_empty_lines [OF ms] blank_docstring_def ls list.case)
qed

section \<open>Which declarations are reported\<close>

lemma not_docstring_spec:
  "not_docstring (FunctionDef name line body) = (\<not> documented body)"
  "not_docstring (AsyncFunctionDef name line body) = (\<not> documented body)"
  "not_docstring (ClassDef name line body) = (\<not> documented body)"
  by (cases body rule: docstring_of_body.cases;
      simp add: not_docstring_def documented_def cleandoc_empty_iff)+

lemma cleandoc_empty: "cleandoc [] = []"
  by (simp add: cleandoc_def expandtabs_def lstrip_def)

lemma check_methods_single:
  "check_methods cname body [x] = [x] @ check_methods cname body []"
  using check_methods_append [of cname body "[x]" "[]"] by simp

lemma check_methods_Cons:
  "check_methods cname (item # rest) [] = check_methods cname [item] [] @ check_methods cname rest []"
  by (cases item) (simp_all add: check_methods_single)

lemma in_check_methods_single:
  "x \<in> set (check_methods cname [item] []) \<longleftrightarrow>
     (\<exists>line mname mbody.
        x = (''Method'', line, cname @ ''.'' @ mname) \<and>
        (item = FunctionDef mname line mbody \<or> item = AsyncFunctionDef mname line mbody) \<and>
        \<not> documented mbody)"
  by (cases item) (auto simp: not_docstring_spec)

lemma in_check_methods:
  "x \<in> set (check_methods cname body []) \<longleftrightarrow>
     (\<exists>line mname mbody.
        x = (''Method'', line, cname @ ''.'' @ mname) \<and>
        (FunctionDef mname line mbody \<in> set body \<or> AsyncFunctionDef mname line mbody \<in> set body) \<and>
        \<not> documented mbody)"
proof (induction body)
  case Nil
  show ?case by simp
next
  case (Cons item rest)
  have "x \<in> set (check_methods cname (item # rest) []) \<longleftrightarrow>
        x \<in> set (check_methods cname [item] []) \<or> x \<in> set (check_methods cname rest [])"
    by (subst check_methods_Cons) simp
  then show ?case
    unfolding Cons.IH in_check_methods_single by (simp only: set_simps insert_iff) blast
qed

lemma in_check_node:
  "x \<in> set (check_node n []) \<longleftrightarrow>
     (\<exists>name line body.
        (n = FunctionDef name line body \<or> n = AsyncFunctionDef name line body) \<and>
        \<not> documented body \<and> x = (''Function'', line, name))
     \<or> (\<exists>name line body.
        n = ClassDef name line body \<and>
        ((\<not> documented body \<and> x = (''Class'', line, name)) \<or>
         x \<in> set (check_methods name body [])))"
  by (cases n)
    (auto simp: not_docstring_spec check_methods_single)

lemma in_analyze_tree:
  "x \<in> set (analyze_tree tree) \<longleftrightarrow> (\<exists>n \<in> set (walk tree). x \<in> set (check_node n []))"
  by (simp add: analyze_tree_concat)



lemma method_in_check_node:
  "(''Method'', line, q) \<in> set (check_node n []) \<longleftrightarrow>
     (\<exists>cname cline cbody. n = ClassDef cname cline cbody \<and>
        (''Method'', line, q) \<in> set (check_methods cname cbody []))"
  by (simp add: in_check_node)

lemma method_in_check_methods:
  "(''Method'', line, q) \<in> set (check_methods cname body []) \<longleftrightarrow>
     (\<exists>mname mbody.
        (FunctionDef mname line mbody \<in> set body \<or> AsyncFunctionDef mname line mbody \<in> set body) \<and>
        q = cname @ ''.'' @ mname \<and> \<not> documented mbody)"
  by (simp add: in_check_methods) blast


section \<open>The scan as a report over the analysed files\<close>

lemma report_items_fields:
  "stdout (report_items missing s) =
     stdout s @ map (\<lambda>(item_type, line, name).
        ''  - Line '' @ str_int line @ '': '' @ item_type @ '' '' @ [CHR 0x27] @ name @
        [CHR 0x27] @ '' is missing a docstring.'') missing"
  "total_missing (report_items missing s) = total_missing s + int (length missing)"
  "files_scanned (report_items missing s) = files_scanned s"
  by (induction missing s rule: report_items.induct) (simp_all add: print_def)

lemma report_file_fields:
  "stdout (report_file filepath missing s) =
     stdout s @ (if missing = [] then []
       else (filepath @ '':'') #
            map (\<lambda>(item_type, line, name).
              ''  - Line '' @ str_int line @ '': '' @ item_type @ '' '' @ [CHR 0x27] @ name @
              [CHR 0x27] @ '' is missing a docstring.'') missing @ [''''])"
  "total_missing (report_file filepath missing s) = total_missing s + int (length missing)"
  "files_scanned (report_file filepath missing s) =
     files_scanned s + (if missing = [] then 0 else 1)"
  by (simp_all add: report_file_def report_items_fields print_def)

lemma report_all_fields:
  "stdout (report_all rs s) =
     stdout s @ concat (map (\<lambda>(filepath, missing).
       if missing = [] then []
       else (filepath @ '':'') #
            map (\<lambda>(item_type, line, name).
              ''  - Line '' @ str_int line @ '': '' @ item_type @ '' '' @ [CHR 0x27] @ name @
              [CHR 0x27] @ '' is missing a docstring.'') missing @ ['''']) rs)"
  "total_missing (report_all rs s) = total_missing s + int (length (concat (map snd rs)))"
  "files_scanned (report_all rs s) =
     files_scanned s + int (length (filter (\<lambda>(filepath, missing). missing \<noteq> []) rs))"
  by (induction rs s rule: report_all.induct) (simp_all add: report_file_fields)

lemma report_all_append: "report_all (ra @ rb) s = report_all rb (report_all ra s)"
  by (induction ra s rule: report_all.induct) simp_all

lemma analyze_all_append:
  "analyze_all w (a @ b) =
     (case analyze_all w a of
        Inl e \<Rightarrow> Inl e
      | Inr ra \<Rightarrow> (case analyze_all w b of Inl e \<Rightarrow> Inl e | Inr rb \<Rightarrow> Inr (ra @ rb)))"
  by (induction a) (simp_all split: sum.splits)

lemma scan_files_char:
  "scan_files w root files s =
     (case analyze_all w (map (path_join root) (filter (\<lambda>file. endswith file ''.py'') files)) of
        Inl e \<Rightarrow> Inl e
      | Inr rs \<Rightarrow> Inr (report_all rs s))"
proof (induction files arbitrary: s)
  case Nil
  show ?case by simp
next
  case (Cons f fs)
  show ?case
    by (cases "analyze_file w (path_join root f)") (simp_all add: Cons.IH split: sum.splits)
qed

lemma scan_dirs_char:
  "scan_dirs w walked s =
     (case analyze_all w (py_paths walked) of
        Inl e \<Rightarrow> Inl e
      | Inr rs \<Rightarrow> Inr (report_all rs s))"
proof (induction walked arbitrary: s)
  case Nil
  show ?case by (simp add: py_paths_def)
next
  case (Cons entry walked)
  obtain root dirs files where entry: "entry = (root, dirs, files)" by (cases entry)
  show ?case
  proof (cases "hidden_root root \<or> contains root ''__pycache__''")
    case True
    then have "py_paths ((root, dirs, files) # walked) = py_paths walked"
      by (simp add: py_paths_def)
    with True show ?thesis by (auto simp: entry Cons.IH)
  next
    case False
    then have "py_paths ((root, dirs, files) # walked) =
        map (path_join root) (filter (\<lambda>file. endswith file ''.py'') files) @ py_paths walked"
      by (simp add: py_paths_def)
    with False show ?thesis
      by (simp add: entry scan_files_char analyze_all_append Cons.IH report_all_append
          split: sum.splits)
  qed
qed

subsection \<open>Paths below a root with a dotted segment\<close>

lemma split_on_append_sep: "split_on c (a @ c # b) = split_on c a @ split_on c b"
proof (induction a)
  case Nil
  show ?case by simp
next
  case (Cons x xs)
  obtain p ps where "split_on c xs = p # ps"
    using split_on_nonempty [of c xs] by (cases "split_on c xs") simp_all
  with Cons.IH show ?case by simp
qed

lemma split_on_no_sep: "c \<notin> set s \<Longrightarrow> split_on c s = [s]"
  by (induction s) auto

lemma hidden_root_iff:
  "hidden_root root \<longleftrightarrow> (\<exists>part \<in> set (split_on CHR ''/'' root). startswith part ''.'')"
  by (simp add: hidden_root_def list_ex_iff)

lemma hidden_root_join:
  assumes "hidden_root a" and "CHR ''/'' \<notin> set b"
  shows "hidden_root (path_join a b)"
proof -
  from assms(2) have nb: "\<not> startswith b ''/''"
    by (cases b) (auto simp: startswith_def)
  from assms(1) have ne: "a \<noteq> []"
    by (auto simp: hidden_root_iff startswith_def)
  show ?thesis
  proof (cases "endswith a ''/''")
    case True
    then have "a = butlast a @ ''/''"
      using ne by (cases a rule: rev_cases) (auto simp: endswith_def)
    then obtain a' where a: "a = a' @ ''/''" ..
    have "split_on CHR ''/'' a = split_on CHR ''/'' a' @ ['''']"
      using split_on_append_sep [of "CHR ''/''" a' "[]"] by (simp add: a)
    with assms(1) have "\<exists>part \<in> set (split_on CHR ''/'' a'). startswith part ''.''"
      by (auto simp: hidden_root_iff startswith_def)
    moreover have "path_join a b = a' @ CHR ''/'' # b"
      using nb True by (simp add: path_join_def a)
    ultimately show ?thesis
      by (auto simp: hidden_root_iff split_on_append_sep)
  next
    case False
    then have "path_join a b = a @ CHR ''/'' # b"
      using nb ne by (simp add: path_join_def)
    with assms(1) show ?thesis
      by (auto simp: hidden_root_iff split_on_append_sep)
  qed
qed

lemma os_walk_hidden:
  "hidden_root d \<Longrightarrow> valid_tree t \<Longrightarrow> entry \<in> set (os_walk d t) \<Longrightarrow> hidden_root (fst entry)"
proof (induction t arbitrary: d)
  case (Dir subdirs files)
  from Dir.prems(3) consider "entry = (d, map fst subdirs, files)"
    | name sub where "(name, sub) \<in> set subdirs" "entry \<in> set (os_walk (path_join d name) sub)"
    by auto
  then show ?case
  proof cases
    case 1
    with Dir.prems(1) show ?thesis by simp
  next
    case 2
    from 2(1) Dir.prems(2) have v: "CHR ''/'' \<notin> set name" "valid_tree sub"
      by (auto simp: list_all_iff)
    from Dir.prems(1) v(1) have "hidden_root (path_join d name)" by (rule hidden_root_join)
    moreover from 2(1) have "sub \<in> Basic_BNFs.snds (name, sub)" by simp
    ultimately show ?thesis using Dir.IH [OF 2(1)] v(2) 2(2) by blast
  qed
qed

lemma py_paths_hidden:
  "\<forall>entry \<in> set walked. hidden_root (fst entry) \<Longrightarrow> py_paths walked = []"
  by (induction walked) (auto simp: py_paths_def)

subsection \<open>The loops in closed form, and the example environment\<close>

lemma str_int_0: "str_int 0 = ''0''"
  by code_simp

lemma str_int_1: "str_int 1 = ''1''"
  by code_simp

lemma scan_loop_char:
  "scan_loop w directory =
     (case analyze_all w (py_paths (walk_dir w directory)) of
        Inl e \<Rightarrow> Inl e
      | Inr rs \<Rightarrow>
          Inr (report_all rs
                 \<lparr>total_missing = 0, files_scanned = 0,
                  stdout = [''Scanning directory: '' @ abspath w directory @ [CHR 0x0A]]\<rparr>))"
  unfolding scan_loop_def by (rule scan_dirs_char)

lemma concat_blocks_filter:
  "concat (map (\<lambda>(filepath, missing). if missing = [] then [] else f filepath missing) rs) =
   concat (map (\<lambda>(filepath, missing). f filepath missing)
             (filter (\<lambda>(filepath, missing). missing \<noteq> []) rs))"
  by (induction rs) auto

lemma example_paths:
  "py_paths (walk_dir example_world ''proj'') =
     [''proj/bad.py'', ''proj/broken.py'', ''proj/pkg/ok.py'']"
  "py_paths (walk_dir example_world ''proj/pkg'') = [''proj/pkg/ok.py'']"
  by (simp_all add: py_paths_def walk_dir_def example_world_def path_join_def startswith_def
      endswith_def hidden_root_def)

lemma example_files:
  "analyze_file example_world ''proj/bad.py'' = Inr [(''Function'', 1, ''f'')]"
  "analyze_file example_world ''proj/broken.py'' = Inr []"
  "analyze_file example_world ''proj/pkg/ok.py'' = Inr []"
  by (simp_all add: analyze_file_def example_world_def analyze_tree_def walk_def
      not_docstring_def cleandoc_def expandtabs_def lstrip_def isspace_def)

lemma main_char:
  assumes "dir_of w (target_dir argv) = Some t"
    and "analyze_all w (py_paths (os_walk (target_dir argv) t)) = Inr results"
  shows "main w argv =
     Inr ([''Scanning directory: '' @ abspath w (target_dir argv) @ [CHR 0x0A]]
          @ concat (map (\<lambda>(filepath, missing).
              (filepath @ '':'') #
              map (\<lambda>(item_type, line, name).
                ''  - Line '' @ str_int line @ '': '' @ item_type @ '' '' @ [CHR 0x27] @ name @
                [CHR 0x27] @ '' is missing a docstring.'') missing @ [''''])
              (filter (\<lambda>(filepath, missing). missing \<noteq> []) results))
          @ [''--- Summary ---'',
             ''Total missing docstrings found: '' @
               str_int (int (length (concat (map snd results))))]
          @ (if concat (map snd results) = [] then [''No missing docstrings found!''] else []),
          if concat (map snd results) = [] then 0 else 1)"
proof -
  let ?s0 = "\<lparr>total_missing = 0, files_scanned = 0,
      stdout = [''Scanning directory: '' @ abspath w (target_dir argv) @ [CHR 0x0A]]\<rparr>"
  have loop: "scan_loop w (target_dir argv) = Inr (report_all results ?s0)"
    using assms by (simp add: scan_loop_char walk_dir_def)
  show ?thesis
    using assms(1)
    by (simp add: main_def scan_directory_def loop print_def Let_def report_all_fields
        concat_blocks_filter del: concat_eq_Nil_conv)
qed


lemma example_results_walk:
  "analyze_all example_world (py_paths (walk_dir example_world ''proj'')) =
   Inr [(''proj/bad.py'', [(''Function'', 1, ''f'')]), (''proj/broken.py'', []),
        (''proj/pkg/ok.py'', [])]"
  by (simp add: example_paths example_files)

lemma example_results:
  "analyze_all example_world (py_paths (os_walk ''proj''
      (Dir [(''pkg'', Dir [] [''ok.py''])] [''bad.py'', ''broken.py'', ''notes.txt'']))) =
   Inr [(''proj/bad.py'', [(''Function'', 1, ''f'')]), (''proj/broken.py'', []),
        (''proj/pkg/ok.py'', [])]"
proof -
  have "walk_dir example_world ''proj'' = os_walk ''proj''
      (Dir [(''pkg'', Dir [] [''ok.py''])] [''bad.py'', ''broken.py'', ''notes.txt''])"
    by (simp add: walk_dir_def example_world_def)
  with example_results_walk show ?thesis by simp
qed

lemma example_results_pkg:
  "analyze_all example_world (py_paths (os_walk ''proj/pkg'' (Dir [] [''ok.py'']))) =
   Inr [(''proj/pkg/ok.py'', [])]"
proof -
  have "walk_dir example_world ''proj/pkg'' = os_walk ''proj/pkg'' (Dir [] [''ok.py''])"
    by (simp add: walk_dir_def example_world_def)
  with example_paths(2) have "py_paths (os_walk ''proj/pkg'' (Dir [] [''ok.py''])) =
      [''proj/pkg/ok.py'']"
    by simp
  then show ?thesis by (simp add: example_files)
qed

section \<open>Claims about analyze_file on a parsed file\<close>

text \<open>
  Claim C1. The specification says that a method is reported as a \<open>Method\<close> only and never
  also as a \<open>Function\<close>. The file below is
  \<^verbatim>\<open>class C:\<close> (line 1) with a docstring, a documented method \<open>a\<close> (line 3) and an
  undocumented method \<open>b\<close> (line 6). \<open>analyze_file\<close> reports \<open>b\<close> twice: once as the
  method \<open>C.b\<close>, when the walk reaches the class, and once more as the function \<open>b\<close>,
  when the walk reaches the method node itself.
\<close>

theorem method_also_reported_as_function:
  "analyze_tree
     (Module [ClassDef ''C'' 1
        [Expr (Constant (Str ''doc'')),
         FunctionDef ''a'' 3 [Expr (Constant (Str ''d''))],
         FunctionDef ''b'' 6 [Other []]]])
   = [(''Method'', 6, ''C.b''), (''Function'', 6, ''b'')]"
  by (simp add: analyze_tree_def walk_def not_docstring_def cleandoc_def expandtabs_def
      lstrip_def isspace_def)

text \<open>
  Claim C3, as stated, fails: the function
  \<^verbatim>\<open>def f():\<close> whose body is a triple-quoted literal that opens on one line and closes on
  the next, indented by four spaces, has the docstring literal of a line feed and four
  spaces. Trimming leaves nothing of it, so by the rule of the specification the function
  is not documented; \<open>analyze_file\<close> reports nothing for it.
\<close>

theorem blank_lines_docstring_counts_as_documented:
  "strip (CHR 0x0A # ''    '') = []
   \<and> \<not> documented_spec [Expr (Constant (Str (CHR 0x0A # ''    '')))]
   \<and> analyze_tree
       (Module [FunctionDef ''f'' 1 [Expr (Constant (Str (CHR 0x0A # ''    '')))]]) = []"
  by (simp add: strip_def documented_spec_def analyze_tree_def walk_def not_docstring_def
      cleandoc_def expandtabs_def lstrip_def isspace_def)

text \<open>
  Claim C3, amended. A declaration of any kind is reported as missing exactly when it is
  not documented, and it is documented exactly when the first statement of its body is an
  expression statement holding a string literal that is not blank: its first line has a
  character that is not whitespace, or one of its later lines is not empty. Stated for the
  three reported kinds over all nodes the walk yields (asynchronous functions are reported
  under the kind \<open>Function\<close>); the last two parts are the function whose body starts with
  the empty string literal, and the blank literals on one line.
\<close>

theorem documented_iff_docstring_not_blank:
  "(documented body \<longleftrightarrow>
      (\<exists>text others. body = Expr (Constant (Str text)) # others \<and> \<not> blank_docstring text))
   \<and> ((''Function'', line, name) \<in> set (analyze_tree tree) \<longleftrightarrow>
      (\<exists>fbody. (FunctionDef name line fbody \<in> set (walk tree) \<or>
                AsyncFunctionDef name line fbody \<in> set (walk tree)) \<and>
               \<not> documented fbody))
   \<and> ((''Class'', line, name) \<in> set (analyze_tree tree) \<longleftrightarrow>
      (\<exists>cbody. ClassDef name line cbody \<in> set (walk tree) \<and> \<not> documented cbody))
   \<and> ((''Method'', line, qname) \<in> set (analyze_tree tree) \<longleftrightarrow>
      (\<exists>cname cline cbody mname mbody.
         ClassDef cname cline cbody \<in> set (walk tree) \<and>
         (FunctionDef mname line mbody \<in> set cbody \<or>
          AsyncFunctionDef mname line mbody \<in> set cbody) \<and>
         qname = cname @ ''.'' @ mname \<and> \<not> documented mbody))
   \<and> (''Function'', line, name) \<in>
       set (analyze_tree (Module [FunctionDef name line (Expr (Constant (Str [])) # rest)]))
   \<and> (CHR 0x0A \<notin> set spaces \<and> list_all isspace spaces \<longrightarrow>
        \<not> documented (Expr (Constant (Str spaces)) # rest))"
proof (intro conjI impI)
  show "documented body \<longleftrightarrow>
      (\<exists>text others. body = Expr (Constant (Str text)) # others \<and> \<not> blank_docstring text)"
    by (cases body rule: docstring_of_body.cases) (simp_all add: documented_def)
  show "(''Function'', line, name) \<in> set (analyze_tree tree) \<longleftrightarrow>
      (\<exists>fbody. (FunctionDef name line fbody \<in> set (walk tree) \<or>
                AsyncFunctionDef name line fbody \<in> set (walk tree)) \<and>
               \<not> documented fbody)"
    unfolding in_analyze_tree in_check_node in_check_methods by auto
  show "(''Class'', line, name) \<in> set (analyze_tree tree) \<longleftrightarrow>
      (\<exists>cbody. ClassDef name line cbody \<in> set (walk tree) \<and> \<not> documented cbody)"
    unfolding in_analyze_tree in_check_node in_check_methods by auto
  show "(''Method'', line, qname) \<in> set (analyze_tree tree) \<longleftrightarrow>
      (\<exists>cname cline cbody mname mbody.
         ClassDef cname cline cbody \<in> set (walk tree) \<and>
         (FunctionDef mname line mbody \<in> set cbody \<or>
          AsyncFunctionDef mname line mbody \<in> set cbody) \<and>
         qname = cname @ ''.'' @ mname \<and> \<not> documented mbody)"
    unfolding in_analyze_tree method_in_check_node method_in_check_methods by blast
  have "\<not> documented (Expr (Constant (Str [])) # rest)"
    by (simp add: documented_def blank_docstring_def)
  then have "(''Function'', line, name) \<in>
      set (check_node (FunctionDef name line (Expr (Constant (Str [])) # rest)) [])"
    by (simp add: not_docstring_spec)
  moreover have "FunctionDef name line (Expr (Constant (Str [])) # rest) \<in>
      set (walk (Module [FunctionDef name line (Expr (Constant (Str [])) # rest)]))"
    by (simp add: walk_def)
  ultimately show "(''Function'', line, name) \<in>
       set (analyze_tree (Module [FunctionDef name line (Expr (Constant (Str [])) # rest)]))"
    unfolding in_analyze_tree by blast
next
  assume "CHR 0x0A \<notin> set spaces \<and> list_all isspace spaces"
  then show "\<not> documented (Expr (Constant (Str spaces)) # rest)"
    by (simp add: documented_def blank_docstring_def split_on_no_sep)
qed

text \<open>
  The amended claim C3 at a function whose body is the empty string literal, and at the
  literal of two spaces.
\<close>

theorem documented_iff_docstring_not_blank_witness:
  "(''Function'', 1, ''f'') \<in>
     set (analyze_tree (Module [FunctionDef ''f'' 1 [Expr (Constant (Str []))]]))
   \<and> CHR 0x0A \<notin> set ''  '' \<and> list_all isspace ''  ''
   \<and> \<not> documented [Expr (Constant (Str ''  ''))]"
proof -
  note inst = documented_iff_docstring_not_blank
    [where name = "''f''" and line = 1 and rest = "[]" and body = "[]"
       and tree = "Module []" and qname = "[]" and spaces = "''  ''"]
  have sp: "CHR 0x0A \<notin> set ''  '' \<and> list_all isspace ''  ''"
    by (simp add: isspace_def)
  from inst have "(''Function'', 1, ''f'') \<in>
     set (analyze_tree (Module [FunctionDef ''f'' 1 [Expr (Constant (Str []))]]))"
    by blast
  moreover from inst sp have "\<not> documented [Expr (Constant (Str ''  ''))]"
    by blast
  ultimately show ?thesis using sp by blast
qed







section \<open>Claims about the scan and the entry point\<close>



text \<open>
  Claim C6. When the root is not a directory the run prints the one error message and exits
  with code 1; nothing else is printed, and no file is read or parsed: the outcome is the
  same whatever reading and parsing would give.
\<close>

theorem invalid_root_is_fatal:
  assumes "dir_of w (target_dir argv) = None"
  shows "main w argv =
           Inr ([''Error: Directory '' @ [CHR 0x27] @ target_dir argv @ [CHR 0x27] @
                 '' does not exist.''], 1)
         \<and> (\<forall>rd ps. main (w\<lparr>read_text := rd, ast_parse := ps\<rparr>) argv = main w argv)"
  using assms by (simp add: main_def)

text \<open>Claim C6 at the root \<open>nowhere\<close>, which does not exist.\<close>

theorem invalid_root_is_fatal_witness:
  "dir_of example_world (target_dir [''prog'', ''nowhere'']) = None
   \<and> main example_world [''prog'', ''nowhere''] =
       Inr ([''Error: Directory 'nowhere' does not exist.''], 1)"
proof -
  have h: "dir_of example_world (target_dir [''prog'', ''nowhere'']) = None"
    by (simp add: example_world_def target_dir_def)
  from h show ?thesis
    using invalid_root_is_fatal [OF h] by (simp add: target_dir_def)
qed

text \<open>
  Claim C2. When the root argument has a path segment that begins with a dot, and so for the
  default root \<open>.\<close> used when no argument is given, every directory the walk yields is
  skipped: no file is handed to \<open>analyze_file\<close>, both counters stay 0, and the run prints
  the empty summary and exits with code 0, whatever the tree holds and whatever reading
  and parsing its files would give.
\<close>

theorem dotted_root_scans_nothing:
  assumes "dir_of w (target_dir argv) = Some t" and "valid_tree t"
    and "hidden_root (target_dir argv)"
  shows "(\<forall>entry \<in> set (walk_dir w (target_dir argv)). hidden_root (fst entry))
    \<and> py_paths (walk_dir w (target_dir argv)) = []
    \<and> scan_loop w (target_dir argv) =
        Inr \<lparr>total_missing = 0, files_scanned = 0,
             stdout = [''Scanning directory: '' @ abspath w (target_dir argv) @ [CHR 0x0A]]\<rparr>
    \<and> main w argv =
        Inr ([''Scanning directory: '' @ abspath w (target_dir argv) @ [CHR 0x0A],
              ''--- Summary ---'', ''Total missing docstrings found: 0'',
              ''No missing docstrings found!''], 0)
    \<and> target_dir [prog] = ''.'' \<and> hidden_root ''.''"
proof -
  have hid: "\<forall>entry \<in> set (walk_dir w (target_dir argv)). hidden_root (fst entry)"
    using assms by (auto simp: walk_dir_def dest: os_walk_hidden)
  then have paths: "py_paths (walk_dir w (target_dir argv)) = []"
    by (rule py_paths_hidden)
  then have loop: "scan_loop w (target_dir argv) =
        Inr \<lparr>total_missing = 0, files_scanned = 0,
             stdout = [''Scanning directory: '' @ abspath w (target_dir argv) @ [CHR 0x0A]]\<rparr>"
    by (simp add: scan_loop_char)
  have run: "main w argv =
        Inr ([''Scanning directory: '' @ abspath w (target_dir argv) @ [CHR 0x0A],
              ''--- Summary ---'', ''Total missing docstrings found: 0'',
              ''No missing docstrings found!''], 0)"
    using assms(1) by (simp add: main_def scan_directory_def loop print_def str_int_0)
  have dflt: "target_dir [prog] = ''.''" by (simp add: target_dir_def)
  have dot: "hidden_root ''.''" by (simp add: hidden_root_def startswith_def)
  from hid paths loop run dflt dot show ?thesis by blast
qed

text \<open>
  Claim C2 at the default root of the example: \<open>./top.py\<close> would give a finding, and the
  run reports none.
\<close>

theorem dotted_root_scans_nothing_witness:
  "dir_of example_world (target_dir [''prog'']) =
     Some (Dir [(''proj'',
            Dir [(''pkg'', Dir [] [''ok.py''])] [''bad.py'', ''broken.py'', ''notes.txt''])]
            [''top.py''])
   \<and> analyze_file example_world ''./top.py'' = Inr [(''Function'', 1, ''f'')]
   \<and> main example_world [''prog''] =
       Inr ([''Scanning directory: /home/u'' @ [CHR 0x0A], ''--- Summary ---'',
             ''Total missing docstrings found: 0'', ''No missing docstrings found!''], 0)"
proof -
  have d: "dir_of example_world (target_dir [''prog'']) =
     Some (Dir [(''proj'',
            Dir [(''pkg'', Dir [] [''ok.py''])] [''bad.py'', ''broken.py'', ''notes.txt''])]
            [''top.py''])"
    by (simp add: example_world_def target_dir_def)
  have v: "valid_tree (Dir [(''proj'',
            Dir [(''pkg'', Dir [] [''ok.py''])] [''bad.py'', ''broken.py'', ''notes.txt''])]
            [''top.py''])"
    by simp
  have h: "hidden_root (target_dir [''prog''])"
    by (simp add: target_dir_def hidden_root_def startswith_def)
  have f: "analyze_file example_world ''./top.py'' = Inr [(''Function'', 1, ''f'')]"
    by (simp add: analyze_file_def example_world_def analyze_tree_def walk_def
        not_docstring_def)
  have a: "abspath example_world (target_dir [''prog'']) = ''/home/u''"
    by (simp add: example_world_def target_dir_def)
  from d f a show ?thesis
    using dotted_root_scans_nothing [OF d v h] by simp
qed

text \<open>
  Claim C4. The specification counts every file with full coverage in \<open>filesScanned\<close>.
  The program's counter \<open>files_scanned\<close> is incremented at line 77 only, inside
  \<open>if missing:\<close>: \<open>proj/pkg/ok.py\<close> is read and parsed and has full coverage, and after
  the scan of \<open>proj/pkg\<close> the counter is 0.
\<close>

theorem fully_documented_file_not_counted:
  "read_text example_world ''proj/pkg/ok.py'' = Inr ''def f(): 'doc'; pass''
   \<and> ast_parse example_world ''def f(): 'doc'; pass'' =
       Inr (Module [FunctionDef ''f'' 1 [Expr (Constant (Str ''doc'')), Other []]])
   \<and> analyze_file example_world ''proj/pkg/ok.py'' = Inr []
   \<and> scan_loop example_world ''proj/pkg'' =
       Inr \<lparr>total_missing = 0, files_scanned = 0,
            stdout = [''Scanning directory: /home/u/proj/pkg'' @ [CHR 0x0A]]\<rparr>"
  by (simp add: scan_loop_char example_paths example_files report_file_def)
    (simp add: example_world_def)

text \<open>
  Claim C5. For a root that is a directory, a scan in which no analysis raises an exception
  runs to its end, exits with code 0 exactly when the findings of all analysed files
  together are none, and exits with code 1 when there is at least one.
\<close>

theorem exit_code_zero_iff_no_findings:
  assumes "dir_of w (target_dir argv) = Some t"
    and "analyze_all w (py_paths (os_walk (target_dir argv) t)) = Inr results"
  shows "\<exists>out code. main w argv = Inr (out, code)
    \<and> (code = 0 \<longleftrightarrow> length (concat (map snd results)) = 0)
    \<and> (0 < length (concat (map snd results)) \<longrightarrow> code = 1)"
  unfolding main_char [OF assms] by simp

text \<open>Claim C5 at \<open>proj\<close>, with one finding and exit code 1.\<close>

theorem exit_code_zero_iff_no_findings_witness:
  "dir_of example_world (target_dir [''prog'', ''proj'']) =
     Some (Dir [(''pkg'', Dir [] [''ok.py''])] [''bad.py'', ''broken.py'', ''notes.txt''])
   \<and> (\<exists>out. main example_world [''prog'', ''proj''] = Inr (out, 1))"
proof -
  have t: "target_dir [''prog'', ''proj''] = ''proj''" by (simp add: target_dir_def)
  have d: "dir_of example_world (target_dir [''prog'', ''proj'']) =
     Some (Dir [(''pkg'', Dir [] [''ok.py''])] [''bad.py'', ''broken.py'', ''notes.txt''])"
    by (simp add: t example_world_def)
  have r: "analyze_all example_world (py_paths (os_walk (target_dir [''prog'', ''proj''])
      (Dir [(''pkg'', Dir [] [''ok.py''])] [''bad.py'', ''broken.py'', ''notes.txt'']))) =
   Inr [(''proj/bad.py'', [(''Function'', 1, ''f'')]), (''proj/broken.py'', []),
        (''proj/pkg/ok.py'', [])]"
    unfolding t by (rule example_results)
  from d show ?thesis
    using exit_code_zero_iff_no_findings [OF d r] by auto
qed

text \<open>
  Claim C8, as stated, fails: the finding line and the summary line the program prints end
  in the words \<open>is missing a docstring.\<close> and \<open>Total missing docstrings found:\<close>, not in
  the words of the specification.
\<close>

theorem finding_line_wording:
  "main example_world [''prog'', ''proj''] =
     Inr ([''Scanning directory: /home/u/proj'' @ [CHR 0x0A], ''proj/bad.py:'',
           ''  - Line 1: Function 'f' is missing a docstring.'', [],
           ''--- Summary ---'', ''Total missing docstrings found: 1''], 1)
   \<and> ''  - Line 1: Function 'f' is missing a docstring.'' \<noteq>
       ''  - Line 1: Function 'f' is missing a documentation block.''
   \<and> ''Total missing docstrings found: 1'' \<noteq>
       ''Total missing documentation items found: 1''"
proof -
  have t: "target_dir [''prog'', ''proj''] = ''proj''" by (simp add: target_dir_def)
  have d: "dir_of example_world (target_dir [''prog'', ''proj'']) =
     Some (Dir [(''pkg'', Dir [] [''ok.py''])] [''bad.py'', ''broken.py'', ''notes.txt''])"
    by (simp add: t example_world_def)
  have r: "analyze_all example_world (py_paths (os_walk (target_dir [''prog'', ''proj''])
      (Dir [(''pkg'', Dir [] [''ok.py''])] [''bad.py'', ''broken.py'', ''notes.txt'']))) =
   Inr [(''proj/bad.py'', [(''Function'', 1, ''f'')]), (''proj/broken.py'', []),
        (''proj/pkg/ok.py'', [])]"
    unfolding t by (rule example_results)
  have a: "abspath example_world ''proj'' = ''/home/u/proj''" by (simp add: example_world_def)
  show ?thesis
    unfolding main_char [OF d r] by (simp add: t a str_int_1)
qed

text \<open>
  Claim C8, amended: the output is the \<open>Scanning directory\<close> line; then for each file with
  findings the header \<open>filepath:\<close> (the path joined from the root, not made absolute), one
  line \<open>  - Line N: Kind 'name' is missing a docstring.\<close> per finding and an empty line;
  then \<open>--- Summary ---\<close> and \<open>Total missing docstrings found: count\<close>, followed by
  \<open>No missing docstrings found!\<close> when the count is 0.
\<close>

theorem report_format:
  assumes "dir_of w (target_dir argv) = Some t"
    and "analyze_all w (py_paths (os_walk (target_dir argv) t)) = Inr results"
  shows "\<exists>code. main w argv =
     Inr ([''Scanning directory: '' @ abspath w (target_dir argv) @ [CHR 0x0A]]
          @ concat (map (\<lambda>(filepath, missing).
              (filepath @ '':'') #
              map (\<lambda>(item_type, line, name).
                ''  - Line '' @ str_int line @ '': '' @ item_type @ '' '' @ [CHR 0x27] @ name @
                [CHR 0x27] @ '' is missing a docstring.'') missing @ [''''])
              (filter (\<lambda>(filepath, missing). missing \<noteq> []) results))
          @ [''--- Summary ---'',
             ''Total missing docstrings found: '' @
               str_int (int (length (concat (map snd results))))]
          @ (if concat (map snd results) = [] then [''No missing docstrings found!''] else []),
          code)"
  unfolding main_char [OF assms] by blast

text \<open>The amended claim C8 at \<open>proj/pkg\<close>, where the count is 0.\<close>

theorem report_format_witness:
  "dir_of example_world (target_dir [''prog'', ''proj/pkg'']) = Some (Dir [] [''ok.py''])
   \<and> (\<exists>code. main example_world [''prog'', ''proj/pkg''] =
       Inr ([''Scanning directory: /home/u/proj/pkg'' @ [CHR 0x0A], ''--- Summary ---'',
             ''Total missing docstrings found: 0'', ''No missing docstrings found!''], code))"
proof -
  have t: "target_dir [''prog'', ''proj/pkg''] = ''proj/pkg''" by (simp add: target_dir_def)
  have d: "dir_of example_world (target_dir [''prog'', ''proj/pkg'']) = Some (Dir [] [''ok.py''])"
    by (simp add: t example_world_def)
  have r: "analyze_all example_world (py_paths (os_walk (target_dir [''prog'', ''proj/pkg''])
      (Dir [] [''ok.py'']))) = Inr [(''proj/pkg/ok.py'', [])]"
    unfolding t by (rule example_results_pkg)
  have a: "abspath example_world ''proj/pkg'' = ''/home/u/proj/pkg''"
    by (simp add: example_world_def)
  from d show ?thesis
    using report_format [OF d r] by (simp add: t a str_int_0)
qed

end
